theory Spec2Isabelle
  imports Complex_Main
begin

section \<open>Numbers and exceptions\<close>

text \<open>
  The helpers of the quantization-aware-training notebook (\<^verbatim>\<open>AverageMeter\<close>,
  \<^verbatim>\<open>ProgressMeter\<close>, \<^verbatim>\<open>accuracy\<close>, \<^verbatim>\<open>train\<close>, \<^verbatim>\<open>validate\<close>) compute with Python
  numbers. They are modelled by exact rationals: a Python \<^verbatim>\<open>int\<close> is itself, a
  \<^verbatim>\<open>float\<close> is the rational it stands for, and the rounding of binary floating
  point is not part of the model. An exception is a value of \<open>py_error\<close>.
\<close>

datatype py_error = ZeroDivisionError | ValueError | IndexError | RuntimeError

text \<open>Python's true division \<^verbatim>\<open>a / b\<close> on numbers: it raises when \<^verbatim>\<open>b\<close> is zero.\<close>

definition py_truediv :: "rat \<Rightarrow> rat \<Rightarrow> py_error + rat" where
  "py_truediv a b = (if b = 0 then Inl ZeroDivisionError else Inr (a / b))"

section \<open>AverageMeter\<close>

text \<open>
  \<^verbatim>\<open>
  class AverageMeter(object):
      def __init__(self, name, fmt=":f"):
          self.name = name
          self.fmt = fmt
          self.reset()

      def reset(self):
          self.val = 0
          self.avg = 0
          self.sum = 0
          self.count = 0

      def update(self, val, n=1):
          self.val = val
          self.sum += val * n
          self.count += n
          self.avg = self.sum / self.count
  \<close>
  The field \<^verbatim>\<open>sum\<close> is called \<open>sum_m\<close>, since \<open>sum\<close> is a constant of HOL.
\<close>

record AverageMeter =
  name :: string
  fmt :: string
  val :: rat
  avg :: rat
  sum_m :: rat
  count :: rat

definition reset :: "AverageMeter \<Rightarrow> AverageMeter" where
  "reset m = m\<lparr>val := 0, avg := 0, sum_m := 0, count := 0\<rparr>"

text \<open>
  The constructor stores the two strings and calls \<open>reset\<close>, which creates the four
  numeric fields; the values they are given before \<open>reset\<close> runs are never read.
\<close>

definition AverageMeter_init :: "string \<Rightarrow> string \<Rightarrow> AverageMeter" where
  "AverageMeter_init nm f =
     reset \<lparr>name = nm, fmt = f, val = 0, avg = 0, sum_m = 0, count = 0\<rparr>"

text \<open>
  \<open>update\<close> assigns three fields and then divides. The division is the last
  statement, so when it raises the three assignments have already happened: the model
  returns the outcome together with the object as the statement left it.
\<close>

definition update :: "AverageMeter \<Rightarrow> rat \<Rightarrow> rat \<Rightarrow> (py_error + unit) \<times> AverageMeter" where
  "update m v n =
     (let m1 = m\<lparr>val := v\<rparr>;
          m2 = m1\<lparr>sum_m := sum_m m1 + v * n\<rparr>;
          m3 = m2\<lparr>count := count m2 + n\<rparr>
      in case py_truediv (sum_m m3) (count m3) of
           Inl e \<Rightarrow> (Inl e, m3)
         | Inr q \<Rightarrow> (Inr (), m3\<lparr>avg := q\<rparr>))"


section \<open>Strings: \<^verbatim>\<open>str\<close> of an integer and \<^verbatim>\<open>str.format\<close>\<close>

text \<open>
  \<^verbatim>\<open>str(n)\<close> of a Python \<^verbatim>\<open>int\<close> is its decimal representation, with a leading
  minus sign when it is negative. \<^verbatim>\<open>str.format\<close> is modelled for the format strings
  this notebook builds: literal text, the field \<^verbatim>\<open>{}\<close> and fields \<^verbatim>\<open>{:Wd}\<close> with an
  optional width, whose leading \<^verbatim>\<open>0\<close> is Python's zero-padding flag. Fields are numbered
  automatically, left to right; a field beyond the arguments raises \<^verbatim>\<open>IndexError\<close>, and
  anything outside this subset is reported as \<^verbatim>\<open>ValueError\<close>. Without the \<^verbatim>\<open>0\<close> flag an
  integer is right-aligned in its field and padded with spaces.
\<close>

definition digit_char :: "nat \<Rightarrow> char" where
  "digit_char d = ''0123456789'' ! d"

fun str_nat :: "nat \<Rightarrow> string" where
  "str_nat n = (if n < 10 then [digit_char n] else str_nat (n div 10) @ [digit_char (n mod 10)])"

declare str_nat.simps [simp del]

definition str_int :: "int \<Rightarrow> string" where
  "str_int i = (if i < 0 then CHR ''-'' # str_nat (nat (- i)) else str_nat (nat i))"

definition is_digit :: "char \<Rightarrow> bool" where
  "is_digit c = (c \<in> set ''0123456789'')"

definition digit_val :: "char \<Rightarrow> nat" where
  "digit_val c = of_char c - 48"

definition format_d :: "bool \<Rightarrow> nat \<Rightarrow> int \<Rightarrow> string" where
  "format_d zero w i =
     (let s = str_int i; pad = w - length s
      in if zero then
           (if i < 0 then CHR ''-'' # replicate pad CHR ''0'' @ str_nat (nat (- i))
            else replicate pad CHR ''0'' @ s)
         else replicate pad CHR '' '' @ s)"

datatype scan = Text | Open | Spec | Width bool nat | Close bool nat

definition emit :: "string \<Rightarrow> py_error + string \<Rightarrow> py_error + string" where
  "emit s r = (case r of Inl e \<Rightarrow> Inl e | Inr t \<Rightarrow> Inr (s @ t))"

fun str_format :: "scan \<Rightarrow> nat \<Rightarrow> string \<Rightarrow> int list \<Rightarrow> py_error + string" where
  "str_format Text k [] args = Inr []"
| "str_format st k [] args = Inl ValueError"
| "str_format Text k (c # cs) args =
     (if c = CHR ''{'' then str_format Open k cs args
      else if c = CHR ''}'' then Inl ValueError
      else emit [c] (str_format Text k cs args))"
| "str_format Open k (c # cs) args =
     (if c = CHR ''}'' then
        (if k < length args then emit (str_int (args ! k)) (str_format Text (Suc k) cs args)
         else Inl IndexError)
      else if c = CHR '':'' then str_format Spec k cs args
      else Inl ValueError)"
| "str_format Spec k (c # cs) args =
     (if c = CHR ''0'' then str_format (Width True 0) k cs args
      else if is_digit c then str_format (Width False (digit_val c)) k cs args
      else if c = CHR ''d'' then str_format (Close False 0) k cs args
      else Inl ValueError)"
| "str_format (Width z w) k (c # cs) args =
     (if is_digit c then str_format (Width z (10 * w + digit_val c)) k cs args
      else if c = CHR ''d'' then str_format (Close z w) k cs args
      else Inl ValueError)"
| "str_format (Close z w) k (c # cs) args =
     (if c = CHR ''}'' then
        (if k < length args then emit (format_d z w (args ! k)) (str_format Text (Suc k) cs args)
         else Inl IndexError)
      else Inl ValueError)"

definition format :: "string \<Rightarrow> int list \<Rightarrow> py_error + string" where
  "format f args = str_format Text 0 f args"

section \<open>ProgressMeter\<close>

text \<open>
  \<^verbatim>\<open>
  class AverageMeter(object):
      def __str__(self):
          fmtstr = "{name} {val" + self.fmt + "} ({avg" + self.fmt + "})"
          return fmtstr.format(**self.__dict__)

  class ProgressMeter(object):
      def __init__(self, num_batches, meters, prefix=""):
          self.batch_fmtstr = self._get_batch_fmtstr(num_batches)
          self.meters = meters
          self.prefix = prefix

      def display(self, batch):
          entries = [self.prefix + self.batch_fmtstr.format(batch)]
          entries += [str(meter) for meter in self.meters]
          print("\t".join(entries))

      def _get_batch_fmtstr(self, num_batches):
          num_digits = len(str(num_batches // 1))
          fmt = "{:" + str(num_digits) + "d}"
          return "[" + fmt + "/" + fmt.format(num_batches) + "]"
  \<close>
  The meters' format specifications (\<^verbatim>\<open>:2.3f\<close> and the like) render floats; that
  rendering belongs to the interpreter and is the parameter \<open>fmt_num\<close>, which takes
  the specification and the number. A \<open>ProgressMeter\<close> holds references to meters that
  the epoch loop keeps updating: the model holds their keys, and \<open>display\<close> reads the
  meters from the store it is given. \<open>display\<close> returns the line that is printed.
\<close>

definition get_batch_fmtstr :: "int \<Rightarrow> py_error + string" where
  "get_batch_fmtstr num_batches =
     (let num_digits = int (length (str_int (num_batches div 1)));
          fmt = ''{:'' @ str_int num_digits @ ''d}''
      in case format fmt [num_batches] of
           Inl e \<Rightarrow> Inl e
         | Inr s \<Rightarrow> Inr (''['' @ fmt @ ''/'' @ s @ '']''))"

definition meter_str :: "(string \<Rightarrow> rat \<Rightarrow> string) \<Rightarrow> AverageMeter \<Rightarrow> string" where
  "meter_str fmt_num m =
     name m @ '' '' @ fmt_num (fmt m) (val m) @ '' ('' @ fmt_num (fmt m) (avg m) @ '')''"

record 'k ProgressMeter =
  batch_fmtstr :: string
  meters :: "'k list"
  prefix :: string

definition ProgressMeter_init :: "int \<Rightarrow> 'k list \<Rightarrow> string \<Rightarrow> py_error + 'k ProgressMeter" where
  "ProgressMeter_init num_batches ms pre =
     (case get_batch_fmtstr num_batches of
        Inl e \<Rightarrow> Inl e
      | Inr f \<Rightarrow> Inr \<lparr>batch_fmtstr = f, meters = ms, prefix = pre\<rparr>)"

fun join :: "string \<Rightarrow> string list \<Rightarrow> string" where
  "join sep [] = []"
| "join sep [x] = x"
| "join sep (x # y # ys) = x @ sep @ join sep (y # ys)"

definition display ::
  "(string \<Rightarrow> rat \<Rightarrow> string) \<Rightarrow> 'k ProgressMeter \<Rightarrow> ('k \<Rightarrow> AverageMeter) \<Rightarrow> int
     \<Rightarrow> py_error + string" where
  "display fmt_num pm store batch =
     (case format (batch_fmtstr pm) [batch] of
        Inl e \<Rightarrow> Inl e
      | Inr s \<Rightarrow>
          Inr (join [CHR 0x09]
                 ((prefix pm @ s) # map (\<lambda>k. meter_str fmt_num (store k)) (meters pm))))"

text \<open>The value of a width read digit by digit, as the scanner accumulates it.\<close>

definition width_step :: "nat \<Rightarrow> char \<Rightarrow> nat" where
  "width_step a c = 10 * a + digit_val c"

section \<open>Tensors and \<^verbatim>\<open>accuracy\<close>\<close>

text \<open>
  \<^verbatim>\<open>
  def accuracy(output, target, topk=(1,)):
      with torch.no_grad():
          maxk = max(topk)
          batch_size = target.size(0)

          _, pred = output.topk(maxk, 1, True, True)
          pred = pred.t()
          correct = pred.eq(target.view(1, -1).expand_as(pred))

          res = []
          for k in topk:
              correct_k = correct[:k].reshape(-1).float().sum(0, keepdim=True)
              res.append(correct_k.mul_(100.0 / batch_size))
          return res
  \<close>
  \<^verbatim>\<open>output\<close> is a tensor of shape (N, C): \<open>rows\<close> are its N score vectors and \<open>size1\<close>
  is C, which the tensor knows even when it has no row. \<^verbatim>\<open>target\<close> is a one-dimensional
  tensor of integer labels and \<^verbatim>\<open>topk\<close> a tuple of Python integers.

  The tensor operations are the library's; each is modelled by what it returns.
  \<^item> \<^verbatim>\<open>output.topk(k, 1, True, True)\<close> gives, for every row, the indices of its \<open>k\<close>
    largest entries, largest first, and raises when \<open>k\<close> is negative or exceeds C. The
    order among equal scores is the library's choice; the model takes the lower index
    first (\<open>sort_key\<close> is stable).
  \<^item> \<^verbatim>\<open>t()\<close> transposes: the result has one row per rank and one column per example.
  \<^item> \<^verbatim>\<open>target.view(1, -1).expand_as(pred)\<close> repeats the label row once per rank. It
    needs as many labels as \<open>pred\<close> has columns, except that a single label is
    broadcast to every column; any other length raises.
  \<^item> \<^verbatim>\<open>eq\<close> compares elementwise; \<^verbatim>\<open>correct[:k]\<close> is Python's slice, which counts a
    negative \<open>k\<close> from the end; \<^verbatim>\<open>reshape(-1).float().sum(0, keepdim=True)\<close> counts the
    true entries. The result is a one-element tensor, read by the callers with
    \<^verbatim>\<open>[0]\<close>; the model returns the number.
  \<^item> \<^verbatim>\<open>100.0 / batch_size\<close> divides Python numbers, and so raises on a zero batch size.
\<close>

record tensor2d =
  size1 :: nat
  rows :: "rat list list"

definition wf_tensor :: "tensor2d \<Rightarrow> bool" where
  "wf_tensor t = list_all (\<lambda>r. length r = size1 t) (rows t)"

definition argsort_desc :: "rat list \<Rightarrow> nat list" where
  "argsort_desc r = sort_key (\<lambda>i. - (r ! i)) [0..<length r]"

definition topk_row :: "nat \<Rightarrow> rat list \<Rightarrow> nat list" where
  "topk_row k r = take k (argsort_desc r)"

definition tensor_topk :: "tensor2d \<Rightarrow> int \<Rightarrow> py_error + nat list list" where
  "tensor_topk t k =
     (if k < 0 \<or> int (size1 t) < k then Inl RuntimeError
      else Inr (map (topk_row (nat k)) (rows t)))"

definition tensor_t :: "nat \<Rightarrow> 'a list list \<Rightarrow> 'a list list" where
  "tensor_t ncols m = map (\<lambda>j. map (\<lambda>r. r ! j) m) [0..<ncols]"

definition expand_as :: "int list \<Rightarrow> nat \<Rightarrow> nat \<Rightarrow> py_error + int list list" where
  "expand_as target nrows ncols =
     (if length target = ncols then Inr (replicate nrows target)
      else if length target = 1 then Inr (replicate nrows (replicate ncols (hd target)))
      else Inl RuntimeError)"

definition tensor_eq :: "nat list list \<Rightarrow> int list list \<Rightarrow> bool list list" where
  "tensor_eq pred tgt = map2 (map2 (\<lambda>p l. int p = l)) pred tgt"

definition slice_to :: "int \<Rightarrow> 'a list \<Rightarrow> 'a list" where
  "slice_to k xs = (if k < 0 then take (length xs - nat (- k)) xs else take (nat k) xs)"

definition float_sum :: "bool list \<Rightarrow> rat" where
  "float_sum bs = sum_list (map (\<lambda>b. if b then 1 else 0) bs)"

definition py_max :: "int list \<Rightarrow> py_error + int" where
  "py_max xs = (case xs of [] \<Rightarrow> Inl ValueError | x # ys \<Rightarrow> Inr (fold max ys x))"

fun accuracy_loop :: "bool list list \<Rightarrow> nat \<Rightarrow> int list \<Rightarrow> py_error + rat list" where
  "accuracy_loop correct batch_size [] = Inr []"
| "accuracy_loop correct batch_size (k # ks) =
     (let correct_k = float_sum (concat (slice_to k correct))
      in case py_truediv 100 (of_nat batch_size) of
           Inl e \<Rightarrow> Inl e
         | Inr scale \<Rightarrow>
             (case accuracy_loop correct batch_size ks of
                Inl e \<Rightarrow> Inl e
              | Inr res \<Rightarrow> Inr (correct_k * scale # res)))"

definition accuracy :: "tensor2d \<Rightarrow> int list \<Rightarrow> int list \<Rightarrow> py_error + rat list" where
  "accuracy output target topk =
     (case py_max topk of
        Inl e \<Rightarrow> Inl e
      | Inr maxk \<Rightarrow>
          (let batch_size = length target in
           case tensor_topk output maxk of
             Inl e \<Rightarrow> Inl e
           | Inr pred0 \<Rightarrow>
               (let pred = tensor_t (nat maxk) pred0 in
                case expand_as target (nat maxk) (length (rows output)) of
                  Inl e \<Rightarrow> Inl e
                | Inr tgt \<Rightarrow>
                    (let correct = tensor_eq pred tgt
                     in accuracy_loop correct batch_size topk))))"

text \<open>
  The accuracy in the specification's words: the labels that are among an example's
  \<open>k\<close> highest-scoring class indices, the number of such examples, and 100 times
  that number over the number of examples.
\<close>

definition in_topk :: "nat \<Rightarrow> rat list \<Rightarrow> int \<Rightarrow> bool" where
  "in_topk k r l = (l \<in> int ` set (topk_row k r))"

definition topk_hits :: "nat \<Rightarrow> rat list list \<Rightarrow> int list \<Rightarrow> nat" where
  "topk_hits k rs ls = length (filter (\<lambda>(r, l). in_topk k r l) (zip rs ls))"

definition spec_accuracy :: "tensor2d \<Rightarrow> int list \<Rightarrow> int \<Rightarrow> rat" where
  "spec_accuracy output target k =
     100 * of_nat (topk_hits (nat k) (rows output) target) / of_nat (length (rows output))"

section \<open>The epoch drivers: \<^verbatim>\<open>train\<close> and \<^verbatim>\<open>validate\<close>\<close>

text \<open>
  \<^verbatim>\<open>
  def train(train_loader, model, criterion, optimizer, epoch):
      batch_time = AverageMeter("Time", ":3.3f")
      losses = AverageMeter("Loss", ":2.3f")
      top1 = AverageMeter("Acc@1", ":2.2f")
      top5 = AverageMeter("Acc@5", ":2.2f")
      progress = ProgressMeter(
          len(train_loader), [batch_time, losses, top1, top5],
          prefix="Epoch:[{}]".format(epoch)
      )
      model.train()
      end = time.time()
      for i, (images, target) in enumerate(train_loader):
          images = images.to(device)
          target = target.to(device)
          output = model(images)
          loss = criterion(output, target)
          acc1, acc5 = accuracy(output, target, topk=(1, 5))
          losses.update(loss.item(), images.size(0))
          top1.update(acc1[0], images.size(0))
          top5.update(acc5[0], images.size(0))
          optimizer.zero_grad()
          loss.backward()
          optimizer.step()
          batch_time.update(time.time() - end)
          end = time.time()
          print_frequency = 50
          if i % print_frequency == 0:
              progress.display(i)
  \<close>
  \<^verbatim>\<open>train\<close> has no \<^verbatim>\<open>return\<close> statement: it returns \<^verbatim>\<open>None\<close>. \<^verbatim>\<open>validate\<close>, given
  further down, runs the same loop without the three optimizer lines.

  The model, the loss, the optimizer, the clock and the float formatting are external.
  They are the fields of \<open>env\<close>: the forward pass reads the mode flag and the
  parameters and may raise; \<open>criterion\<close> gives the loss as a number
  (\<^verbatim>\<open>loss.item()\<close>); \<open>backward\<close> computes new gradient buffers, \<open>zero_grad\<close> clears them
  and \<open>step\<close> computes new parameters from them; \<open>size0\<close> is \<^verbatim>\<open>images.size(0)\<close>;
  \<open>time_time n\<close> is what the \<open>n\<close>-th call of \<^verbatim>\<open>time.time()\<close> returns. What the calls
  change is the \<open>world\<close>: the parameters and gradients of the model, its mode, the
  gradient-tracking switch of \<^verbatim>\<open>torch.no_grad\<close>, the optimizer operations invoked so
  far, the number of clock readings and the lines printed. Moving a tensor to the
  device does not change its value and is left out.
\<close>

datatype meter_id = Batch_time | Losses | Top1 | Top5

datatype opt_call = Zero_grad | Backward | Step

datatype py_value = PyNone | PyNum rat

record ('p, 'g, 'x) env =
  forward :: "bool \<Rightarrow> 'p \<Rightarrow> 'x \<Rightarrow> py_error + tensor2d"
  criterion :: "tensor2d \<Rightarrow> int list \<Rightarrow> py_error + rat"
  zero_grad :: "'g \<Rightarrow> 'g"
  backward :: "'p \<Rightarrow> 'x \<Rightarrow> int list \<Rightarrow> 'g \<Rightarrow> py_error + 'g"
  step :: "'p \<Rightarrow> 'g \<Rightarrow> py_error + 'p"
  size0 :: "'x \<Rightarrow> nat"
  time_time :: "nat \<Rightarrow> rat"
  number_format :: "string \<Rightarrow> rat \<Rightarrow> string"

record ('p, 'g) world =
  params :: 'p
  grads :: 'g
  training :: bool
  grad_enabled :: bool
  optimizer_calls :: "opt_call list"
  clock :: nat
  stdout :: "string list"

text \<open>
  The four meters are local objects that the \<open>ProgressMeter\<close> refers to: a store from
  their keys to their current states. An exception that leaves the function drops
  them, so a failing run yields the error and the world only.
\<close>

type_synonym meter_store = "meter_id \<Rightarrow> AverageMeter"

definition new_meters :: meter_store where
  "new_meters k =
     (case k of
        Batch_time \<Rightarrow> AverageMeter_init ''Time'' '':3.3f''
      | Losses \<Rightarrow> AverageMeter_init ''Loss'' '':2.3f''
      | Top1 \<Rightarrow> AverageMeter_init ''Acc@1'' '':2.2f''
      | Top5 \<Rightarrow> AverageMeter_init ''Acc@5'' '':2.2f'')"

definition update_meter ::
  "meter_id \<Rightarrow> rat \<Rightarrow> rat \<Rightarrow> meter_store \<Rightarrow> (py_error + unit) \<times> meter_store" where
  "update_meter k v n st = (case update (st k) v n of (r, m) \<Rightarrow> (r, st(k := m)))"

definition now :: "('p, 'g, 'x) env \<Rightarrow> ('p, 'g) world \<Rightarrow> rat \<times> ('p, 'g) world" where
  "now env w = (time_time env (clock w), w\<lparr>clock := Suc (clock w)\<rparr>)"

definition print :: "string \<Rightarrow> ('p, 'g) world \<Rightarrow> ('p, 'g) world" where
  "print line w = w\<lparr>stdout := stdout w @ [line]\<rparr>"

text \<open>
  The loop body of both drivers, in three parts: the lines from \<^verbatim>\<open>output = model(images)\<close> to
  \<^verbatim>\<open>top5.update\<close>, which \<^verbatim>\<open>train\<close> and \<^verbatim>\<open>validate\<close> share; the three optimizer lines of
  \<^verbatim>\<open>train\<close>; and the lines from \<^verbatim>\<open>batch_time.update\<close> to \<^verbatim>\<open>progress.display(i)\<close>, which
  differ in the print frequency only. Unpacking \<^verbatim>\<open>acc1, acc5\<close> needs exactly two
  results. An optimizer operation is recorded when it is invoked, whether or not it
  raises.
\<close>

definition measure_batch ::
  "('p, 'g, 'x) env \<Rightarrow> ('p, 'g) world \<Rightarrow> 'x \<Rightarrow> int list \<Rightarrow> meter_store
     \<Rightarrow> py_error + rat \<times> meter_store" where
  "measure_batch env w images target st =
     (case forward env (training w) (params w) images of
        Inl e \<Rightarrow> Inl e
      | Inr output \<Rightarrow>
     (case criterion env output target of
        Inl e \<Rightarrow> Inl e
      | Inr loss \<Rightarrow>
     (case accuracy output target [1, 5] of
        Inl e \<Rightarrow> Inl e
      | Inr res \<Rightarrow>
     (case res of
        [acc1, acc5] \<Rightarrow>
          (case update_meter Losses loss (of_nat (size0 env images)) st of
             (Inl e, st1) \<Rightarrow> Inl e
           | (Inr u, st1) \<Rightarrow>
          (case update_meter Top1 acc1 (of_nat (size0 env images)) st1 of
             (Inl e, st2) \<Rightarrow> Inl e
           | (Inr u, st2) \<Rightarrow>
          (case update_meter Top5 acc5 (of_nat (size0 env images)) st2 of
             (Inl e, st3) \<Rightarrow> Inl e
           | (Inr u, st3) \<Rightarrow> Inr (loss, st3))))
      | _ \<Rightarrow> Inl ValueError))))"

definition time_and_report ::
  "('p, 'g, 'x) env \<Rightarrow> meter_id ProgressMeter \<Rightarrow> nat \<Rightarrow> nat \<Rightarrow> meter_store \<Rightarrow> rat
     \<Rightarrow> ('p, 'g) world \<Rightarrow> (py_error + meter_store \<times> rat) \<times> ('p, 'g) world" where
  "time_and_report env progress print_frequency i st end_t w =
     (case now env w of (t1, w1) \<Rightarrow>
     (case update_meter Batch_time (t1 - end_t) 1 st of
        (Inl e, st1) \<Rightarrow> (Inl e, w1)
      | (Inr u, st1) \<Rightarrow>
     (case now env w1 of (t2, w2) \<Rightarrow>
        if i mod print_frequency = 0 then
          (case display (number_format env) progress st1 (int i) of
             Inl e \<Rightarrow> (Inl e, w2)
           | Inr line \<Rightarrow> (Inr (st1, t2), print line w2))
        else (Inr (st1, t2), w2))))"

definition optimize ::
  "('p, 'g, 'x) env \<Rightarrow> 'x \<Rightarrow> int list \<Rightarrow> ('p, 'g) world \<Rightarrow> (py_error + unit) \<times> ('p, 'g) world" where
  "optimize env images target w =
     (let w1 = w\<lparr>grads := zero_grad env (grads w), optimizer_calls := optimizer_calls w @ [Zero_grad]\<rparr>;
          w2 = w1\<lparr>optimizer_calls := optimizer_calls w1 @ [Backward]\<rparr>
      in case backward env (params w2) images target (grads w2) of
           Inl e \<Rightarrow> (Inl e, w2)
         | Inr g \<Rightarrow>
             (let w3 = w2\<lparr>grads := g, optimizer_calls := optimizer_calls w2 @ [Step]\<rparr>
              in case step env (params w3) (grads w3) of
                   Inl e \<Rightarrow> (Inl e, w3)
                 | Inr p \<Rightarrow> (Inr (), w3\<lparr>params := p\<rparr>)))"

fun train_loop ::
  "('p, 'g, 'x) env \<Rightarrow> meter_id ProgressMeter \<Rightarrow> nat \<Rightarrow> ('x \<times> int list) list \<Rightarrow> meter_store \<Rightarrow> rat
     \<Rightarrow> ('p, 'g) world \<Rightarrow> (py_error + meter_store \<times> rat) \<times> ('p, 'g) world" where
  "train_loop env progress i [] st end_t w = (Inr (st, end_t), w)"
| "train_loop env progress i ((images, target) # rest) st end_t w =
     (case measure_batch env w images target st of
        Inl e \<Rightarrow> (Inl e, w)
      | Inr (loss, st1) \<Rightarrow>
     (case optimize env images target w of
        (Inl e, w1) \<Rightarrow> (Inl e, w1)
      | (Inr u, w1) \<Rightarrow>
     (case time_and_report env progress 50 i st1 end_t w1 of
        (Inl e, w2) \<Rightarrow> (Inl e, w2)
      | (Inr (st2, end2), w2) \<Rightarrow> train_loop env progress (Suc i) rest st2 end2 w2)))"

definition train ::
  "('x \<times> int list) list \<Rightarrow> ('p, 'g, 'x) env \<Rightarrow> int \<Rightarrow> ('p, 'g) world
     \<Rightarrow> (py_error + py_value) \<times> ('p, 'g) world" where
  "train train_loader env epoch w =
     (case format ''Epoch:[{}]'' [epoch] of
        Inl e \<Rightarrow> (Inl e, w)
      | Inr pre \<Rightarrow>
     (case ProgressMeter_init (int (length train_loader)) [Batch_time, Losses, Top1, Top5] pre of
        Inl e \<Rightarrow> (Inl e, w)
      | Inr progress \<Rightarrow>
     (case now env (w\<lparr>training := True\<rparr>) of (end_t, w1) \<Rightarrow>
     (case train_loop env progress 0 train_loader new_meters end_t w1 of
        (Inl e, w2) \<Rightarrow> (Inl e, w2)
      | (Inr (st, end2), w2) \<Rightarrow> (Inr PyNone, w2)))))"

text \<open>
  \<^verbatim>\<open>
  def validate(val_loader, model, criterion):
      batch_time = AverageMeter("Time", ":3.3f")
      losses = AverageMeter("Loss", ":2.3f")
      top1 = AverageMeter("Acc@1", ":2.2f")
      top5 = AverageMeter("Acc@5", ":2.2f")
      progress = ProgressMeter(len(val_loader), [batch_time, losses, top1, top5],
                               prefix="Test: ")
      model.eval()
      with torch.no_grad():
          end = time.time()
          for i, (images, target) in enumerate(val_loader):
              images = images.to(device)
              target = target.to(device)
              output = model(images)
              loss = criterion(output, target)
              acc1, acc5 = accuracy(output, target, topk=(1, 5))
              losses.update(loss.item(), images.size(0))
              top1.update(acc1[0], images.size(0))
              top5.update(acc5[0], images.size(0))
              batch_time.update(time.time() - end)
              end = time.time()
              print_frequency = 10
              if i % print_frequency == 0:
                  progress.display(i)
          print(" * Acc@1 {top1.avg:.3f} Acc@5 {top5.avg:.3f}".format(top1=top1, top5=top5))
      return top1.avg
  \<close>
  Leaving the \<^verbatim>\<open>with torch.no_grad()\<close> block restores the gradient-tracking switch,
  on an exception too.
\<close>

fun validate_loop ::
  "('p, 'g, 'x) env \<Rightarrow> meter_id ProgressMeter \<Rightarrow> nat \<Rightarrow> ('x \<times> int list) list \<Rightarrow> meter_store \<Rightarrow> rat
     \<Rightarrow> ('p, 'g) world \<Rightarrow> (py_error + meter_store \<times> rat) \<times> ('p, 'g) world" where
  "validate_loop env progress i [] st end_t w = (Inr (st, end_t), w)"
| "validate_loop env progress i ((images, target) # rest) st end_t w =
     (case measure_batch env w images target st of
        Inl e \<Rightarrow> (Inl e, w)
      | Inr (loss, st1) \<Rightarrow>
     (case time_and_report env progress 10 i st1 end_t w of
        (Inl e, w1) \<Rightarrow> (Inl e, w1)
      | (Inr (st2, end2), w1) \<Rightarrow> validate_loop env progress (Suc i) rest st2 end2 w1))"

definition validate ::
  "('x \<times> int list) list \<Rightarrow> ('p, 'g, 'x) env \<Rightarrow> ('p, 'g) world
     \<Rightarrow> (py_error + py_value) \<times> ('p, 'g) world" where
  "validate val_loader env w =
     (case ProgressMeter_init (int (length val_loader)) [Batch_time, Losses, Top1, Top5] ''Test: '' of
        Inl e \<Rightarrow> (Inl e, w)
      | Inr progress \<Rightarrow>
     (let w1 = w\<lparr>training := False\<rparr>;
          w2 = w1\<lparr>grad_enabled := False\<rparr>
      in case now env w2 of (end_t, w3) \<Rightarrow>
     (case validate_loop env progress 0 val_loader new_meters end_t w3 of
        (Inl e, w4) \<Rightarrow> (Inl e, w4\<lparr>grad_enabled := grad_enabled w1\<rparr>)
      | (Inr (st, end2), w4) \<Rightarrow>
          (let w5 = print ('' * Acc@1 '' @ number_format env '':.3f'' (avg (st Top1))
                            @ '' Acc@5 '' @ number_format env '':.3f'' (avg (st Top5))) w4
           in (Inr (PyNum (avg (st Top1))), w5\<lparr>grad_enabled := grad_enabled w1\<rparr>)))))"

text \<open>
  The running top-1 average in the spec's words: the per-batch top-1 accuracy and batch
  size, as the model in the given mode and with the given parameters produces them, and
  the meter that has been updated with each of them in turn.
\<close>

definition top1_sample ::
  "('p, 'g, 'x) env \<Rightarrow> bool \<Rightarrow> 'p \<Rightarrow> 'x \<times> int list \<Rightarrow> rat \<times> rat" where
  "top1_sample env mode p b =
     (case b of (images, target) \<Rightarrow>
        (case forward env mode p images of
           Inl e \<Rightarrow> 0
         | Inr output \<Rightarrow>
             (case accuracy output target [1, 5] of
                Inr (acc1 # rest) \<Rightarrow> acc1
              | _ \<Rightarrow> 0),
         of_nat (size0 env images)))"

definition running_average :: "AverageMeter \<Rightarrow> (rat \<times> rat) list \<Rightarrow> AverageMeter" where
  "running_average m samples = fold (\<lambda>(v, n) m. snd (update m v n)) samples m"

text \<open>
  A small concrete setting for evaluating the drivers: a model that returns its input
  as the scores, a constant loss, an optimizer that counts down, a clock that ticks
  once per reading, and two batches of two and one examples over five classes.
\<close>

definition example_env :: "(int, int, tensor2d) env" where
  "example_env = \<lparr>forward = (\<lambda>mode p x. Inr x),
           criterion = (\<lambda>out tgt. Inr (1 / 2)),
           zero_grad = (\<lambda>g. 0),
           backward = (\<lambda>p x tgt g. Inr (g + 1)),
           step = (\<lambda>p g. Inr (p - g)),
           size0 = (\<lambda>x. length (rows x)),
           time_time = (\<lambda>n. of_nat n),
           number_format = (\<lambda>spec x. ''#'')\<rparr>"

definition example_world :: "(int, int) world" where
  "example_world = \<lparr>params = 10, grads = 0, training = False, grad_enabled = True,
         optimizer_calls = [], clock = 0, stdout = []\<rparr>"

definition example_batch1 :: "tensor2d \<times> int list" where
  "example_batch1 = (\<lparr>size1 = 5, rows = [[1, 2, 3, 4, 5], [5, 4, 3, 2, 1]]\<rparr>, [4, 4])"

definition example_batch2 :: "tensor2d \<times> int list" where
  "example_batch2 = (\<lparr>size1 = 5, rows = [[1, 2, 3, 4, 5]]\<rparr>, [4])"

section \<open>Properties of AverageMeter\<close>

lemma update_fields:
  "val (snd (update m v n)) = v"
  "sum_m (snd (update m v n)) = sum_m m + v * n"
  "count (snd (update m v n)) = count m + n"
  "name (snd (update m v n)) = name m"
  "fmt (snd (update m v n)) = fmt m"
  by (simp_all add: update_def py_truediv_def Let_def)

lemma update_ok:
  "count m + n \<noteq> 0 \<Longrightarrow>
   update m v n =
     (Inr (), m\<lparr>val := v, avg := (sum_m m + v * n) / (count m + n),
                sum_m := sum_m m + v * n, count := count m + n\<rparr>)"
  by (simp add: update_def py_truediv_def Let_def)

lemma update_raises:
  "count m + n = 0 \<Longrightarrow>
   update m v n =
     (Inl ZeroDivisionError, m\<lparr>val := v, sum_m := sum_m m + v * n, count := 0\<rparr>)"
  by (simp add: update_def py_truediv_def Let_def)






text \<open>
  C10. \<open>update\<close> raises exactly when the count after the update is zero, and the error
  is the division's. The value, sum and count have been assigned by then and the
  average has not: the meter is left with the new three and the old average.
\<close>

theorem update_raises_iff_count_zero:
  "((\<exists>e. fst (update m v n) = Inl e) = (count (snd (update m v n)) = 0))
   \<and> ((fst (update m v n) = Inl ZeroDivisionError) = (count m + n = 0))
   \<and> (count m + n = 0 \<longrightarrow>
        snd (update m v n) = m\<lparr>val := v, sum_m := sum_m m + v * n, count := count m + n\<rparr>
        \<and> avg (snd (update m v n)) = avg m)"
  by (simp add: update_def py_truediv_def Let_def)

theorem update_raises_iff_count_zero_witness:
  "fst (update (AverageMeter_init ''Loss'' '':2.3f'') 5 0) = Inl ZeroDivisionError
   \<and> snd (update (AverageMeter_init ''Loss'' '':2.3f'') 5 0)
       = \<lparr>name = ''Loss'', fmt = '':2.3f'', val = 5, avg = 0, sum_m = 0, count = 0\<rparr>
   \<and> fst (update (snd (update (AverageMeter_init ''Loss'' '':2.3f'') 5 2)) 7 (- 2))
       = Inl ZeroDivisionError
   \<and> snd (update (snd (update (AverageMeter_init ''Loss'' '':2.3f'') 5 2)) 7 (- 2))
       = \<lparr>name = ''Loss'', fmt = '':2.3f'', val = 7, avg = 5, sum_m = - 4, count = 0\<rparr>"
  using update_raises_iff_count_zero [of "AverageMeter_init ''Loss'' '':2.3f''" 5 0]
        update_raises_iff_count_zero
          [of "snd (update (AverageMeter_init ''Loss'' '':2.3f'') 5 2)" 7 "- 2"]
  by (simp add: update_ok AverageMeter_init_def reset_def)

section \<open>Properties of the strings and of ProgressMeter\<close>

lemma lt10_cases: "d < 10 \<Longrightarrow> d \<in> {0, 1, 2, 3, 4, 5, 6, 7, 8, 9::nat}"
  by auto

lemma digit_char_is_digit: "d < 10 \<Longrightarrow> is_digit (digit_char d)"
  using lt10_cases [of d] by (auto simp: is_digit_def digit_char_def)

lemma digit_val_digit_char: "d < 10 \<Longrightarrow> digit_val (digit_char d) = d"
  using lt10_cases [of d] by (auto simp: digit_val_def digit_char_def)

lemma digit_char_nonzero: "d < 10 \<Longrightarrow> 0 < d \<Longrightarrow> digit_char d \<noteq> CHR ''0''"
  using lt10_cases [of d] by (auto simp: digit_char_def)

lemma str_nat_nonempty: "str_nat n \<noteq> []"
  by (subst str_nat.simps) simp

lemma str_nat_digits: "c \<in> set (str_nat n) \<Longrightarrow> is_digit c"
proof (induction n rule: str_nat.induct)
  case (1 n)
  show ?case
  proof (cases "n < 10")
    case True
    with "1.prems" show ?thesis
      by (subst (asm) str_nat.simps) (simp add: digit_char_is_digit)
  next
    case False
    with "1.prems" "1.IH" show ?thesis
      by (subst (asm) str_nat.simps) (auto simp: digit_char_is_digit)
  qed
qed

lemma str_nat_value: "foldl width_step 0 (str_nat n) = n"
proof (induction n rule: str_nat.induct)
  case (1 n)
  show ?case
  proof (cases "n < 10")
    case True
    then show ?thesis
      by (subst str_nat.simps) (simp add: width_step_def digit_val_digit_char)
  next
    case False
    have "foldl width_step 0 (str_nat n)
          = width_step (foldl width_step 0 (str_nat (n div 10))) (digit_char (n mod 10))"
      using False by (subst str_nat.simps) simp
    also have "\<dots> = width_step (n div 10) (digit_char (n mod 10))"
      by (simp only: "1.IH" [OF False])
    also have "\<dots> = 10 * (n div 10) + n mod 10"
      by (simp add: width_step_def digit_val_digit_char)
    finally show ?thesis by simp
  qed
qed

lemma str_nat_hd: "0 < n \<Longrightarrow> hd (str_nat n) \<noteq> CHR ''0''"
proof (induction n rule: str_nat.induct)
  case (1 n)
  show ?case
  proof (cases "n < 10")
    case True
    with "1.prems" show ?thesis
      by (subst str_nat.simps) (simp add: digit_char_nonzero)
  next
    case False
    then have "0 < n div 10" by simp
    with False "1.IH" show ?thesis
      by (subst str_nat.simps) (simp add: str_nat_nonempty)
  qed
qed

lemma str_format_Width_digits:
  "\<forall>c \<in> set ds. is_digit c \<Longrightarrow>
   str_format (Width z a) k (ds @ CHR ''d'' # CHR ''}'' # rest) args =
     (if k < length args
      then emit (format_d z (foldl width_step a ds) (args ! k)) (str_format Text (Suc k) rest args)
      else Inl IndexError)"
  by (induction ds arbitrary: a) (simp_all add: width_step_def is_digit_def)

lemma str_format_Spec_digits:
  assumes "ds \<noteq> []" "hd ds \<noteq> CHR ''0''" "\<forall>c \<in> set ds. is_digit c"
  shows "str_format Spec k (ds @ CHR ''d'' # CHR ''}'' # rest) args =
     (if k < length args
      then emit (format_d False (foldl width_step 0 ds) (args ! k)) (str_format Text (Suc k) rest args)
      else Inl IndexError)"
proof -
  from assms obtain c cs where ds: "ds = c # cs" "c \<noteq> CHR ''0''" "is_digit c" "\<forall>c \<in> set cs. is_digit c"
    by (cases ds) auto
  have "width_step 0 c = digit_val c" by (simp add: width_step_def)
  with ds show ?thesis
    by (simp add: str_format_Width_digits)
qed

lemma str_format_literal:
  "\<forall>c \<in> set lit. c \<noteq> CHR ''{'' \<and> c \<noteq> CHR ''}'' \<Longrightarrow>
   str_format Text k (lit @ rest) args = emit lit (str_format Text k rest args)"
  by (induction lit) (auto simp: emit_def split: sum.splits)

lemma is_digit_no_brace: "is_digit c \<Longrightarrow> c \<noteq> CHR ''{'' \<and> c \<noteq> CHR ''}''"
  by (auto simp: is_digit_def)

lemma str_int_no_brace: "c \<in> set (str_int i) \<Longrightarrow> c \<noteq> CHR ''{'' \<and> c \<noteq> CHR ''}''"
  by (auto simp: str_int_def dest!: str_nat_digits is_digit_no_brace split: if_splits)

lemma str_int_nonempty: "str_int i \<noteq> []"
  by (simp add: str_int_def str_nat_nonempty)

lemma format_width_field:
  "0 < w \<Longrightarrow>
   format (pre @ ''{:'' @ str_int (int w) @ ''d}'' @ post) [a] =
     (if (\<forall>c \<in> set pre. c \<noteq> CHR ''{'' \<and> c \<noteq> CHR ''}'') then
        emit pre (emit (format_d False w a) (str_format Text 1 post [a]))
      else format (pre @ ''{:'' @ str_int (int w) @ ''d}'' @ post) [a])"
  by (auto simp: format_def str_format_literal str_int_def str_format_Spec_digits
      str_nat_nonempty str_nat_hd str_nat_digits str_nat_value)

lemma get_batch_fmtstr_eq:
  "get_batch_fmtstr nb =
     Inr (''['' @ ''{:'' @ str_int (int (length (str_int nb))) @ ''d}'' @ ''/'' @ str_int nb @ '']'')"
proof -
  have w: "0 < length (str_int nb)" using str_int_nonempty by simp
  have "format (''{:'' @ str_int (int (length (str_int nb))) @ ''d}'') [nb]
        = Inr (str_int nb)"
    using format_width_field [OF w, of "[]" "[]" nb]
    by (simp add: emit_def format_d_def)
  then show ?thesis
    by (simp add: get_batch_fmtstr_def)
qed

lemma str_format_all_literal:
  "\<forall>c \<in> set lit. c \<noteq> CHR ''{'' \<and> c \<noteq> CHR ''}'' \<Longrightarrow> str_format Text k lit args = Inr lit"
  using str_format_literal [of lit k "[]" args] by (simp add: emit_def)

lemma counter_eq:
  "format (''['' @ ''{:'' @ str_int (int (length (str_int nb))) @ ''d}'' @ ''/'' @ str_int nb @ '']'') [batch]
   = Inr (''['' @ replicate (length (str_int nb) - length (str_int batch)) CHR '' '' @ str_int batch @ ''/'' @ str_int nb @ '']'')"
proof -
  define post where "post = ''/'' @ str_int nb @ '']''"
  have w: "0 < length (str_int nb)" using str_int_nonempty by simp
  have "\<forall>c \<in> set post. c \<noteq> CHR ''{'' \<and> c \<noteq> CHR ''}''"
    by (auto simp: post_def dest: str_int_no_brace)
  then have post: "str_format Text (Suc 0) post [batch] = Inr post"
    by (rule str_format_all_literal)
  have "format (''['' @ ''{:'' @ str_int (int (length (str_int nb))) @ ''d}'' @ post) [batch]
        = Inr (''['' @ format_d False (length (str_int nb)) batch @ post)"
    using format_width_field [OF w, of "''[''" post batch]
    by (simp add: post emit_def)
  then show ?thesis
    by (simp add: post_def format_d_def Let_def)
qed

lemma str_nat_length_small: "n < 10 \<Longrightarrow> length (str_nat n) = 1"
  by (subst str_nat.simps) simp

lemma str_nat_length_big: "\<not> n < 10 \<Longrightarrow> length (str_nat n) = Suc (length (str_nat (n div 10)))"
  by (subst str_nat.simps) simp

lemma str_nat_length_pos: "Suc 0 \<le> length (str_nat n)"
  using str_nat_nonempty [of n] by (cases "str_nat n") simp_all

lemma str_nat_length_upper: "n < 10 ^ length (str_nat n)"
proof (induction n rule: str_nat.induct)
  case (1 n)
  show ?case
  proof (cases "n < 10")
    case True
    then show ?thesis by (simp add: str_nat_length_small)
  next
    case False
    from "1.IH" [OF False] have "n div 10 < 10 ^ length (str_nat (n div 10))" .
    then have "n < 10 * 10 ^ length (str_nat (n div 10))" by simp
    with False show ?thesis by (simp add: str_nat_length_big)
  qed
qed

lemma str_nat_length_lower: "0 < n \<Longrightarrow> 10 ^ (length (str_nat n) - 1) \<le> n"
proof (induction n rule: str_nat.induct)
  case (1 n)
  show ?case
  proof (cases "n < 10")
    case True
    with "1.prems" show ?thesis by (simp add: str_nat_length_small)
  next
    case False
    then have "0 < n div 10" by simp
    from "1.IH" [OF False this] have "10 ^ (length (str_nat (n div 10)) - 1) \<le> n div 10" .
    then have "10 * 10 ^ (length (str_nat (n div 10)) - 1) \<le> n" by simp
    moreover have "0 < length (str_nat (n div 10))" using str_nat_nonempty by simp
    ultimately show ?thesis using False
      by (simp add: str_nat_length_big flip: power_Suc)
  qed
qed

lemma str_nat_length_mono: "a \<le> b \<Longrightarrow> length (str_nat a) \<le> length (str_nat b)"
proof (induction a arbitrary: b rule: str_nat.induct)
  case (1 a)
  show ?case
  proof (cases "a < 10")
    case True
    then show ?thesis by (simp add: str_nat_length_small str_nat_length_pos)
  next
    case False
    with "1.prems" have b: "\<not> b < 10" by simp
    from "1.prems" have "a div 10 \<le> b div 10" by (rule div_le_mono)
    from "1.IH" [OF False this] False b show ?thesis
      by (simp add: str_nat_length_big)
  qed
qed

lemma display_eq:
  "ProgressMeter_init nb ms pre = Inr pm \<Longrightarrow>
   display fmt_num pm store batch =
     Inr (join [CHR 0x09]
            ((pre @ ''['' @ replicate (length (str_int nb) - length (str_int batch)) CHR '' ''
                @ str_int batch @ ''/'' @ str_int nb @ '']'')
             # map (\<lambda>k. meter_str fmt_num (store k)) ms))"
  using counter_eq [of nb batch]
  by (auto simp: ProgressMeter_init_def get_batch_fmtstr_eq display_def)


text \<open>
  C3, as the spec states it: the counter is zero-padded. The width in the format
  string never starts with the zero flag, so the batch index is padded with spaces:
  for 100 batches the format string is \<^verbatim>\<open>[{:3d}/100]\<close> and batch 7 is rendered with two
  spaces in front; the zero-padded rendering needs the format \<^verbatim>\<open>{:03d}\<close>.
\<close>

theorem counter_not_zero_padded_counterexample:
  "get_batch_fmtstr 100 = Inr ''[{:3d}/100]''
   \<and> format ''[{:3d}/100]'' [7] = Inr ''[  7/100]''
   \<and> format ''[{:3d}/100]'' [7] \<noteq> Inr ''[007/100]''
   \<and> format ''[{:03d}/100]'' [7] = Inr ''[007/100]''"
  by code_simp

text \<open>
  C3, amended: for every number of batches and every batch index the constructor
  succeeds and \<open>display\<close> renders the prefix, then the counter \<^verbatim>\<open>[batch/total]\<close> in
  which the batch index is right-aligned and padded with spaces to the number of
  characters of \<^verbatim>\<open>str(total)\<close>, then the meters, joined by tabs. For a total of at
  least 1 that width is the number of decimal digits of the total, and a batch index
  between 0 and the total never exceeds it. For 100 batches, batch 7 is rendered as
  \<^verbatim>\<open>[  7/100]\<close>.
\<close>

theorem counter_space_padded:
  "ProgressMeter_init nb ms pre
     = Inr \<lparr>batch_fmtstr = ''[{:'' @ str_int (int (length (str_int nb))) @ ''d}/'' @ str_int nb @ '']'',
            meters = ms, prefix = pre\<rparr>
   \<and> display fmt_num
        \<lparr>batch_fmtstr = ''[{:'' @ str_int (int (length (str_int nb))) @ ''d}/'' @ str_int nb @ '']'',
         meters = ms, prefix = pre\<rparr> store batch
     = Inr (join [CHR 0x09]
              ((pre @ ''['' @ replicate (length (str_int nb) - length (str_int batch)) CHR '' ''
                  @ str_int batch @ ''/'' @ str_int nb @ '']'')
               # map (\<lambda>k. meter_str fmt_num (store k)) ms))
   \<and> (1 \<le> nb \<longrightarrow>
        nat nb < 10 ^ length (str_int nb) \<and> 10 ^ (length (str_int nb) - 1) \<le> nat nb)
   \<and> (0 \<le> batch \<and> batch \<le> nb \<longrightarrow> length (str_int batch) \<le> length (str_int nb))
   \<and> ProgressMeter_init 100 ms pre
       = Inr \<lparr>batch_fmtstr = ''[{:3d}/100]'', meters = ms, prefix = pre\<rparr>
   \<and> display fmt_num \<lparr>batch_fmtstr = ''[{:3d}/100]'', meters = ms, prefix = pre\<rparr> store 7
       = Inr (join [CHR 0x09]
                ((pre @ ''[  7/100]'') # map (\<lambda>k. meter_str fmt_num (store k)) ms))"
proof -
  have init: "ProgressMeter_init nb ms pre
     = Inr \<lparr>batch_fmtstr = ''[{:'' @ str_int (int (length (str_int nb))) @ ''d}/'' @ str_int nb @ '']'',
            meters = ms, prefix = pre\<rparr>" for nb
    by (simp add: ProgressMeter_init_def get_batch_fmtstr_eq)
  have s100: "str_int 100 = ''100''" and s7: "str_int 7 = ''7''" and s3: "str_int 3 = ''3''"
    by code_simp+
  have r2: "replicate 2 CHR '' '' = ''  ''"
    by code_simp
  have digits: "nat nb < 10 ^ length (str_int nb) \<and> 10 ^ (length (str_int nb) - 1) \<le> nat nb"
    if "1 \<le> nb"
    using that str_nat_length_upper [of "nat nb"] str_nat_length_lower [of "nat nb"]
    by (simp add: str_int_def)
  have fits: "length (str_int batch) \<le> length (str_int nb)" if "0 \<le> batch" "batch \<le> nb"
    using that str_nat_length_mono [of "nat batch" "nat nb"] by (simp add: str_int_def)
  show ?thesis
    using display_eq [OF init [of nb], of fmt_num store batch]
      display_eq [OF init [of 100], of fmt_num store 7]
      init [of nb] init [of 100] digits fits
    by (simp add: s100 s7 s3 r2)
qed

theorem counter_space_padded_witness:
  "display (\<lambda>spec x. []) \<lparr>batch_fmtstr = ''[{:2d}/50]'', meters = [], prefix = ''Test: ''\<rparr>
     (\<lambda>k::nat. AverageMeter_init [] []) 3
     = Inr ''Test: [ 3/50]''
   \<and> length (str_int 3) \<le> length (str_int 50)
   \<and> nat 50 < 10 ^ length (str_int 50) \<and> 10 ^ (length (str_int 50) - 1) \<le> nat 50"
proof -
  have s: "str_int 50 = ''50''" "str_int 3 = ''3''" "str_int 2 = ''2''"
    by code_simp+
  have r: "replicate (Suc 0) CHR '' '' = '' ''"
    by simp
  show ?thesis
    using counter_space_padded [of 50 "[]" "''Test: ''" "\<lambda>spec x. []"
        "\<lambda>k::nat. AverageMeter_init [] []" 3]
    by (simp add: s r)
qed

section \<open>Properties of \<^verbatim>\<open>accuracy\<close>\<close>

lemma argsort_desc_props:
  "set (argsort_desc r) = {0..<length r}"
  "distinct (argsort_desc r)"
  "length (argsort_desc r) = length r"
  "sorted (map (\<lambda>i. - (r ! i)) (argsort_desc r))"
  by (simp_all add: argsort_desc_def)

lemma topk_row_length: "length (topk_row k r) = min k (length r)"
  by (simp add: topk_row_def argsort_desc_props min.commute)

lemma topk_row_distinct: "distinct (topk_row k r)"
  by (simp add: topk_row_def argsort_desc_props)

lemma topk_row_range: "i \<in> set (topk_row k r) \<Longrightarrow> i < length r"
  using set_take_subset [of k "argsort_desc r"] by (auto simp: topk_row_def argsort_desc_props)

lemma topk_row_highest:
  assumes "i \<in> set (topk_row k r)" "j < length r" "j \<notin> set (topk_row k r)"
  shows "r ! j \<le> r ! i"
proof -
  let ?xs = "argsort_desc r"
  from assms(1) obtain a where a: "a < k" "a < length ?xs" "?xs ! a = i"
    by (auto simp: topk_row_def in_set_conv_nth)
  from assms(2) have "j \<in> set ?xs" by (simp add: argsort_desc_props)
  then obtain b where b: "b < length ?xs" "?xs ! b = j"
    by (auto simp: in_set_conv_nth)
  have "\<not> b < k"
  proof
    assume "b < k"
    with b have "j \<in> set (take k ?xs)" by (auto simp: in_set_conv_nth intro!: exI [of _ b])
    with assms(3) show False by (simp add: topk_row_def)
  qed
  with a have "a \<le> b" by simp
  from sorted_nth_mono [OF argsort_desc_props(4) [of r], of a b] this b a
  show ?thesis by simp
qed


lemma in_topk_Suc:
  assumes "k < length r"
  shows "in_topk (Suc k) r l = (in_topk k r l \<or> int (argsort_desc r ! k) = l)"
    and "\<not> (in_topk k r l \<and> int (argsort_desc r ! k) = l)"
proof -
  let ?xs = "argsort_desc r"
  from assms have k: "k < length ?xs" by (simp add: argsort_desc_props)
  then have t: "take (Suc k) ?xs = take k ?xs @ [?xs ! k]" by (rule take_Suc_conv_app_nth)
  show "in_topk (Suc k) r l = (in_topk k r l \<or> int (argsort_desc r ! k) = l)"
    by (auto simp: in_topk_def topk_row_def t)
  have "distinct (take (Suc k) ?xs)" by (simp add: argsort_desc_props)
  then have "?xs ! k \<notin> set (take k ?xs)" by (simp add: t)
  then show "\<not> (in_topk k r l \<and> int (argsort_desc r ! k) = l)"
    by (auto simp: in_topk_def topk_row_def)
qed

lemma float_sum_append: "float_sum (xs @ ys) = float_sum xs + float_sum ys"
  by (simp add: float_sum_def)

lemma float_sum_filter: "float_sum (map P xs) = of_nat (length (filter P xs))"
  by (induction xs) (simp_all add: float_sum_def)

lemma filter_split_length:
  "\<forall>x \<in> set xs. (P x \<longleftrightarrow> Q x \<or> R x) \<and> \<not> (Q x \<and> R x) \<Longrightarrow>
   length (filter P xs) = length (filter Q xs) + length (filter R xs)"
  by (induction xs) auto

lemma correct_length:
  "length (tensor_eq (tensor_t m pred0) (replicate m ls)) = m"
  by (simp add: tensor_eq_def tensor_t_def)

lemma correct_row:
  assumes "j < m"
  shows "tensor_eq (tensor_t m (map (topk_row m) rs)) (replicate m ls) ! j
         = map (\<lambda>(r, l). int (topk_row m r ! j) = l) (zip rs ls)"
proof -
  have "tensor_eq (tensor_t m (map (topk_row m) rs)) (replicate m ls) ! j
        = map2 (\<lambda>p l. int p = l) (map (\<lambda>r. topk_row m r ! j) rs) ls"
    using assms by (simp add: tensor_eq_def tensor_t_def o_def)
  also have "\<dots> = map (\<lambda>(r, l). int (topk_row m r ! j) = l) (zip rs ls)"
    by (simp add: zip_map1 split_def)
  finally show ?thesis .
qed

lemma topk_hits_Suc:
  assumes "k < m" "\<forall>r \<in> set rs. m \<le> length r"
  shows "topk_hits (Suc k) rs ls
         = topk_hits k rs ls + length (filter (\<lambda>(r, l). int (topk_row m r ! k) = l) (zip rs ls))"
  unfolding topk_hits_def
proof (rule filter_split_length, intro ballI)
  fix x assume x: "x \<in> set (zip rs ls)"
  obtain r l where rl: "x = (r, l)" by (cases x)
  with x have "r \<in> set rs" by (auto dest: set_zip_leftD)
  with assms have k: "k < length r" by auto
  have "topk_row m r ! k = argsort_desc r ! k"
    using assms(1) by (simp add: topk_row_def)
  with in_topk_Suc [OF k, of l] rl
  show "((case x of (r, l) \<Rightarrow> in_topk (Suc k) r l) \<longleftrightarrow>
          (case x of (r, l) \<Rightarrow> in_topk k r l) \<or> (case x of (r, l) \<Rightarrow> int (topk_row m r ! k) = l))
        \<and> \<not> ((case x of (r, l) \<Rightarrow> in_topk k r l) \<and> (case x of (r, l) \<Rightarrow> int (topk_row m r ! k) = l))"
    by simp
qed

lemma topk_hits_0: "topk_hits 0 rs ls = 0"
  by (simp add: topk_hits_def in_topk_def topk_row_def)

lemma correct_prefix_sum:
  assumes "\<forall>r \<in> set rs. m \<le> length r"
  shows "k \<le> m \<Longrightarrow>
         float_sum (concat (take k (tensor_eq (tensor_t m (map (topk_row m) rs)) (replicate m ls))))
         = of_nat (topk_hits k rs ls)"
proof (induction k)
  case 0
  show ?case by (simp add: topk_hits_0 float_sum_def)
next
  case (Suc k)
  let ?c = "tensor_eq (tensor_t m (map (topk_row m) rs)) (replicate m ls)"
  from Suc.prems have k: "k < m" by simp
  then have "take (Suc k) ?c = take k ?c @ [?c ! k]"
    by (simp add: take_Suc_conv_app_nth correct_length)
  then have "float_sum (concat (take (Suc k) ?c))
             = float_sum (concat (take k ?c)) + float_sum (?c ! k)"
    by (simp add: float_sum_append)
  also have "\<dots> = of_nat (topk_hits k rs ls)
                    + of_nat (length (filter (\<lambda>(r, l). int (topk_row m r ! k) = l) (zip rs ls)))"
    using Suc.IH k by (simp add: correct_row float_sum_filter)
  also have "\<dots> = of_nat (topk_hits (Suc k) rs ls)"
    by (simp add: topk_hits_Suc [OF k assms])
  finally show ?case .
qed

lemma accuracy_loop_value:
  assumes "0 < batch_size"
  shows "\<forall>k \<in> set ks. 0 \<le> k \<Longrightarrow>
         accuracy_loop correct batch_size ks
         = Inr (map (\<lambda>k. float_sum (concat (take (nat k) correct)) * (100 / of_nat batch_size)) ks)"
  using assms by (induction ks) (simp_all add: py_truediv_def slice_to_def)

lemma py_max_Cons: "py_max (x # xs) = Inr (Max (set (x # xs)))"
  using Max.set_eq_fold [of x xs] by (simp add: py_max_def)

lemma py_max_value: "topk \<noteq> [] \<Longrightarrow> py_max topk = Inr (Max (set topk))"
  using py_max_Cons by (cases topk) blast+

lemma wf_tensor_rows: "wf_tensor t \<Longrightarrow> r \<in> set (rows t) \<Longrightarrow> length r = size1 t"
  by (simp add: wf_tensor_def list_all_iff)

lemma accuracy_value:
  assumes wf: "wf_tensor output"
    and n: "rows output \<noteq> []"
    and len: "length target = length (rows output)"
    and ne: "topk \<noteq> []"
    and ks: "\<forall>k \<in> set topk. 0 \<le> k \<and> k \<le> int (size1 output)"
  shows "accuracy output target topk = Inr (map (spec_accuracy output target) topk)"
proof -
  let ?maxk = "Max (set topk)"
  let ?m = "nat ?maxk"
  have mem: "?maxk \<in> set topk" using ne by simp
  with ks have m: "0 \<le> ?maxk" "?maxk \<le> int (size1 output)" by auto
  have rows_len: "\<forall>r \<in> set (rows output). ?m \<le> length r"
    using m wf by (auto simp: wf_tensor_rows)
  have bs: "0 < length target" using n len by simp
  have ks': "\<forall>k \<in> set topk. 0 \<le> k" using ks by simp
  let ?correct = "tensor_eq (tensor_t ?m (map (topk_row ?m) (rows output))) (replicate ?m target)"
  have "accuracy output target topk = accuracy_loop ?correct (length target) topk"
    using m len by (simp add: accuracy_def py_max_value [OF ne] tensor_topk_def expand_as_def)
  also have "\<dots> = Inr (map (\<lambda>k. float_sum (concat (take (nat k) ?correct)) * (100 / of_nat (length target))) topk)"
    by (rule accuracy_loop_value [OF bs ks'])
  also have "\<dots> = Inr (map (spec_accuracy output target) topk)"
  proof -
    have "float_sum (concat (take (nat k) ?correct)) * (100 / of_nat (length target))
          = spec_accuracy output target k" if "k \<in> set topk" for k
    proof -
      from that have "k \<le> ?maxk" by simp
      then have "nat k \<le> ?m" by simp
      from correct_prefix_sum [OF rows_len this, of target]
      show ?thesis by (simp add: spec_accuracy_def len)
    qed
    then show ?thesis by simp
  qed
  finally show ?thesis .
qed

lemma filter_length_mono:
  "(\<And>x. x \<in> set xs \<Longrightarrow> P x \<Longrightarrow> Q x) \<Longrightarrow> length (filter P xs) \<le> length (filter Q xs)"
  by (induction xs) auto

lemma in_topk_mono: "k1 \<le> k2 \<Longrightarrow> in_topk k1 r l \<Longrightarrow> in_topk k2 r l"
  using set_take_subset_set_take [of k1 k2 "argsort_desc r"]
  by (auto simp: in_topk_def topk_row_def)

lemma topk_hits_mono: "k1 \<le> k2 \<Longrightarrow> topk_hits k1 rs ls \<le> topk_hits k2 rs ls"
  unfolding topk_hits_def
  by (rule filter_length_mono) (auto intro: in_topk_mono)

lemma spec_accuracy_mono:
  assumes "k1 \<le> k2"
  shows "spec_accuracy output target k1 \<le> spec_accuracy output target k2"
proof -
  from assms have "nat k1 \<le> nat k2" by simp
  then have "topk_hits (nat k1) (rows output) target \<le> topk_hits (nat k2) (rows output) target"
    by (rule topk_hits_mono)
  then have "(of_nat (topk_hits (nat k1) (rows output) target) :: rat)
             \<le> of_nat (topk_hits (nat k2) (rows output) target)"
    by simp
  then show ?thesis
    by (simp add: spec_accuracy_def divide_right_mono)
qed



lemma accuracy_no_labels: "\<exists>e. accuracy output [] topk = Inl e"
proof (cases topk)
  case Nil
  then show ?thesis by (simp add: accuracy_def py_max_def)
next
  case (Cons k ks)
  then show ?thesis
    by (auto simp: accuracy_def py_max_def tensor_topk_def expand_as_def py_truediv_def Let_def
        split: sum.splits)
qed

lemma accuracy_no_labels_zero_division:
  assumes "topk \<noteq> []" "rows output = []" "0 \<le> Max (set topk)" "Max (set topk) \<le> int (size1 output)"
  shows "accuracy output [] topk = Inl ZeroDivisionError"
proof -
  define m where "m = Max (set topk)"
  have pm: "py_max topk = Inr m"
    unfolding m_def by (rule py_max_value [OF assms(1)])
  from assms(1) obtain k ks where topk: "topk = k # ks" by (cases topk) auto
  have "accuracy_loop c 0 topk = Inl ZeroDivisionError" for c
    by (simp add: topk py_truediv_def)
  with assms(2-4) show ?thesis
    by (simp add: accuracy_def pm tensor_topk_def expand_as_def flip: m_def)
qed






text \<open>
  C6. For a non-empty batch and requested values between 0 and C, the accuracy is
  monotone in K: where one requested value is less than another, so are their
  accuracies, in the weak sense.
\<close>

theorem accuracy_monotone_in_k:
  assumes "wf_tensor output" "rows output \<noteq> []" "length target = length (rows output)"
    "topk \<noteq> []" "\<forall>k \<in> set topk. 0 \<le> k \<and> k \<le> int (size1 output)"
    "i < length topk" "j < length topk" "topk ! i < topk ! j"
  shows "\<exists>res. accuracy output target topk = Inr res \<and> length res = length topk
               \<and> res ! i \<le> res ! j"
  using accuracy_value [OF assms(1-5)] spec_accuracy_mono [OF less_imp_le [OF assms(8)]] assms(6,7)
  by simp

theorem accuracy_monotone_in_k_witness:
  "\<exists>res. accuracy \<lparr>size1 = 2, rows = [[1 / 10, 9 / 10], [8 / 10, 2 / 10]]\<rparr> [0, 1] [1, 2] = Inr res
         \<and> length res = 2 \<and> res ! 0 \<le> res ! 1"
  using accuracy_monotone_in_k
          [of "\<lparr>size1 = 2, rows = [[1 / 10, 9 / 10], [8 / 10, 2 / 10]]\<rparr>" "[0, 1]" "[1, 2]" 0 1]
  by (auto simp: wf_tensor_def)

text \<open>
  C7. With an empty label vector \<open>accuracy\<close> never returns a result: it raises. When
  the score matrix has no row either and the requested values are ones the library
  accepts, the exception is the \<^verbatim>\<open>ZeroDivisionError\<close> of \<^verbatim>\<open>100.0 / batch_size\<close>, raised
  in the first round of the loop.
\<close>

theorem accuracy_empty_batch_raises:
  "(\<exists>e. accuracy output [] topk = Inl e)
   \<and> (topk \<noteq> [] \<and> rows output = [] \<and> 0 \<le> Max (set topk) \<and> Max (set topk) \<le> int (size1 output)
        \<longrightarrow> accuracy output [] topk = Inl ZeroDivisionError)"
  using accuracy_no_labels accuracy_no_labels_zero_division by blast

theorem accuracy_empty_batch_raises_witness:
  "accuracy \<lparr>size1 = 10, rows = []\<rparr> [] [1, 5] = Inl ZeroDivisionError"
  using accuracy_empty_batch_raises [of "\<lparr>size1 = 10, rows = []\<rparr>" "[1, 5]"]
  by simp

section \<open>Properties of the epoch drivers\<close>

lemma now_frame:
  "now env w = (t, w') \<Longrightarrow>
   params w' = params w \<and> grads w' = grads w \<and> optimizer_calls w' = optimizer_calls w
   \<and> training w' = training w \<and> grad_enabled w' = grad_enabled w"
  by (auto simp: now_def)

lemma time_and_report_frame:
  assumes "time_and_report env progress f i st end_t w = (r, w')"
  shows "params w' = params w \<and> grads w' = grads w \<and> optimizer_calls w' = optimizer_calls w
         \<and> training w' = training w \<and> grad_enabled w' = grad_enabled w"
  using assms
  by (auto simp: time_and_report_def now_def print_def split: prod.splits sum.splits if_splits)

lemma time_and_report_meters:
  assumes "time_and_report env progress f i st end_t w = (Inr (st', end'), w')" "k \<noteq> Batch_time"
  shows "st' k = st k"
  using assms
  by (auto simp: time_and_report_def now_def print_def update_meter_def
      split: prod.splits sum.splits if_splits)

lemma validate_loop_frame:
  "validate_loop env progress i bs st end_t w = (r, w') \<Longrightarrow>
   params w' = params w \<and> grads w' = grads w \<and> optimizer_calls w' = optimizer_calls w
   \<and> training w' = training w \<and> grad_enabled w' = grad_enabled w"
proof (induction bs arbitrary: i st end_t w)
  case Nil
  then show ?case by simp
next
  case (Cons b bs)
  obtain images target where b: "b = (images, target)" by (cases b)
  show ?case
  proof (cases "measure_batch env w images target st")
    case (Inl e)
    with Cons.prems b show ?thesis by simp
  next
    case (Inr m)
    obtain loss st1 where m: "m = (loss, st1)" by (cases m)
    obtain r1 w1 where tr: "time_and_report env progress 10 i st1 end_t w = (r1, w1)"
      by (cases "time_and_report env progress 10 i st1 end_t w")
    note f1 = time_and_report_frame [OF tr]
    show ?thesis
    proof (cases r1)
      case (Inl e)
      with Cons.prems b Inr m tr f1 show ?thesis by auto
    next
      case r1: (Inr s2)
      obtain st2 end2 where s2: "s2 = (st2, end2)" by (cases s2)
      from Cons.prems b Inr m tr r1 s2
      have "validate_loop env progress (Suc i) bs st2 end2 w1 = (r, w')" by simp
      from Cons.IH [OF this] f1 show ?thesis by simp
    qed
  qed
qed


text \<open>
  C9. A run of \<open>validate\<close>, whether it returns or raises, leaves the parameters and the
  gradients of the model as they were, invokes no optimizer operation (zero-gradient,
  backward or step), and leaves the gradient-tracking switch as it found it.
\<close>

theorem validate_leaves_model_unchanged:
  "params (snd (validate val_loader env w)) = params w
   \<and> grads (snd (validate val_loader env w)) = grads w
   \<and> optimizer_calls (snd (validate val_loader env w)) = optimizer_calls w
   \<and> grad_enabled (snd (validate val_loader env w)) = grad_enabled w"
proof (cases "ProgressMeter_init (int (length val_loader)) [Batch_time, Losses, Top1, Top5] ''Test: ''")
  case (Inl e)
  then show ?thesis by (simp add: validate_def)
next
  case (Inr progress)
  let ?w2 = "w\<lparr>training := False, grad_enabled := False\<rparr>"
  obtain end_t w3 where n: "now env ?w2 = (end_t, w3)" by (cases "now env ?w2")
  obtain r w4 where l: "validate_loop env progress 0 val_loader new_meters end_t w3 = (r, w4)"
    by (cases "validate_loop env progress 0 val_loader new_meters end_t w3")
  from now_frame [OF n] validate_loop_frame [OF l]
  have f: "params w4 = params w" "grads w4 = grads w" "optimizer_calls w4 = optimizer_calls w"
    by simp_all
  show ?thesis
    using Inr n l f
    by (cases r) (auto simp: validate_def Let_def print_def split: prod.splits)
qed

lemma measure_batch_top1:
  assumes "measure_batch env w images target st = Inr (loss, st')"
  shows "st' Top1 = snd (update (st Top1) (fst (top1_sample env (training w) (params w) (images, target)))
                                 (snd (top1_sample env (training w) (params w) (images, target))))"
  using assms
  by (auto simp: measure_batch_def top1_sample_def update_meter_def
      split: sum.splits list.splits prod.splits)

lemma validate_loop_top1:
  "validate_loop env progress i bs st end_t w = (Inr (st', end'), w') \<Longrightarrow>
   st' Top1 = running_average (st Top1) (map (top1_sample env (training w) (params w)) bs)"
proof (induction bs arbitrary: i st end_t w)
  case Nil
  then show ?case by (simp add: running_average_def)
next
  case (Cons b bs)
  obtain images target where b: "b = (images, target)" by (cases b)
  from Cons.prems b obtain loss st1 where m: "measure_batch env w images target st = Inr (loss, st1)"
    by (auto split: sum.splits)
  from Cons.prems b m obtain st2 end2 w1 where
    tr: "time_and_report env progress 10 i st1 end_t w = (Inr (st2, end2), w1)"
    and rest: "validate_loop env progress (Suc i) bs st2 end2 w1 = (Inr (st', end'), w')"
    by (auto split: sum.splits prod.splits)
  from time_and_report_frame [OF tr] have w1: "training w1 = training w" "params w1 = params w"
    by simp_all
  from time_and_report_meters [OF tr, of Top1] have "st2 Top1 = st1 Top1" by simp
  with measure_batch_top1 [OF m] Cons.IH [OF rest] w1 b
  show ?case by (simp add: running_average_def split_def)
qed

lemma validate_returns:
  assumes "fst (validate val_loader env w) = Inr v"
  shows "v = PyNum (avg (running_average (AverageMeter_init ''Acc@1'' '':2.2f'')
                          (map (top1_sample env False (params w)) val_loader)))"
proof -
  let ?w2 = "w\<lparr>training := False, grad_enabled := False\<rparr>"
  from assms obtain progress where
    p: "ProgressMeter_init (int (length val_loader)) [Batch_time, Losses, Top1, Top5] ''Test: '' = Inr progress"
    by (auto simp: validate_def split: sum.splits)
  obtain end_t w3 where n: "now env ?w2 = (end_t, w3)" by (cases "now env ?w2")
  from assms p n obtain st end2 w4 where
    l: "validate_loop env progress 0 val_loader new_meters end_t w3 = (Inr (st, end2), w4)"
    and v: "v = PyNum (avg (st Top1))"
    by (auto simp: validate_def Let_def split: sum.splits prod.splits)
  from n have "training w3 = False" "params w3 = params w" by (auto simp: now_def)
  with validate_loop_top1 [OF l] v show ?thesis by (simp add: new_meters_def)
qed

lemma train_returns: "fst (train train_loader env epoch w) = Inr v \<Longrightarrow> v = PyNone"
  by (auto simp: train_def split: sum.splits prod.splits)

lemma running_average_fields:
  "sum_m (running_average m samples) = sum_m m + (\<Sum>(v, n)\<leftarrow>samples. v * n)"
  "count (running_average m samples) = count m + (\<Sum>(v, n)\<leftarrow>samples. n)"
  by (induction samples arbitrary: m) (simp_all add: running_average_def update_fields split_def)

lemma running_average_snoc:
  "running_average m (samples @ [(v, n)]) = snd (update (running_average m samples) v n)"
  by (simp add: running_average_def)

lemma running_average_quotient:
  assumes "samples \<noteq> []" "count (running_average m samples) \<noteq> 0"
  shows "avg (running_average m samples)
         = sum_m (running_average m samples) / count (running_average m samples)"
proof -
  from assms(1) obtain xs x where "samples = xs @ [x]"
    by (cases samples rule: rev_cases) auto
  moreover obtain v n where "x = (v, n)" by (cases x)
  ultimately have s: "samples = xs @ [(v, n)]" by simp
  from assms(2) have "count (running_average m xs) + n \<noteq> 0"
    by (simp add: s running_average_snoc update_fields)
  then show ?thesis
    by (simp add: s running_average_snoc update_ok)
qed

lemma measure_batch_count:
  assumes "measure_batch env w images target st = Inr (loss, st')"
  shows "count (st' Top1) \<noteq> 0"
  using assms
  by (auto simp: measure_batch_def update_meter_def update_def py_truediv_def Let_def
      split: sum.splits list.splits prod.splits if_splits)

lemma validate_loop_count:
  "validate_loop env progress i bs st end_t w = (Inr (st', end'), w') \<Longrightarrow> bs \<noteq> [] \<Longrightarrow>
   count (st' Top1) \<noteq> 0"
proof (induction bs arbitrary: i st end_t w)
  case Nil
  then show ?case by simp
next
  case (Cons b bs)
  obtain images target where b: "b = (images, target)" by (cases b)
  from Cons.prems b obtain loss st1 where m: "measure_batch env w images target st = Inr (loss, st1)"
    by (auto split: sum.splits)
  from Cons.prems b m obtain st2 end2 w1 where
    tr: "time_and_report env progress 10 i st1 end_t w = (Inr (st2, end2), w1)"
    and rest: "validate_loop env progress (Suc i) bs st2 end2 w1 = (Inr (st', end'), w')"
    by (auto split: sum.splits prod.splits)
  from time_and_report_meters [OF tr, of Top1] measure_batch_count [OF m]
  have c: "count (st2 Top1) \<noteq> 0" by simp
  show ?case
  proof (cases bs)
    case Nil
    with rest c show ?thesis by simp
  next
    case (Cons b' bs')
    with Cons.IH [OF rest] show ?thesis by simp
  qed
qed

lemma validate_returns_mean:
  assumes "fst (validate val_loader env w) = Inr v"
  shows "v = PyNum (if val_loader = [] then 0
                    else (\<Sum>(a, n)\<leftarrow>map (top1_sample env False (params w)) val_loader. a * n)
                         / (\<Sum>(a, n)\<leftarrow>map (top1_sample env False (params w)) val_loader. n))"
proof -
  let ?w2 = "w\<lparr>training := False, grad_enabled := False\<rparr>"
  let ?samples = "map (top1_sample env False (params w)) val_loader"
  let ?m0 = "AverageMeter_init ''Acc@1'' '':2.2f''"
  from assms obtain progress where
    p: "ProgressMeter_init (int (length val_loader)) [Batch_time, Losses, Top1, Top5] ''Test: '' = Inr progress"
    by (auto simp: validate_def split: sum.splits)
  obtain end_t w3 where n: "now env ?w2 = (end_t, w3)" by (cases "now env ?w2")
  from assms p n obtain st end2 w4 where
    l: "validate_loop env progress 0 val_loader new_meters end_t w3 = (Inr (st, end2), w4)"
    and v: "v = PyNum (avg (st Top1))"
    by (auto simp: validate_def Let_def split: sum.splits prod.splits)
  from n have w3: "training w3 = False" "params w3 = params w" by (auto simp: now_def)
  from validate_loop_top1 [OF l] w3 have st: "st Top1 = running_average ?m0 ?samples"
    by (simp add: new_meters_def)
  have m0: "sum_m ?m0 = 0" "count ?m0 = 0" "avg ?m0 = 0"
    by (simp_all add: AverageMeter_init_def reset_def)
  show ?thesis
  proof (cases "val_loader = []")
    case True
    with v st m0 show ?thesis by (simp add: running_average_def)
  next
    case False
    with validate_loop_count [OF l] st have c: "count (running_average ?m0 ?samples) \<noteq> 0" by simp
    from False have "?samples \<noteq> []" by simp
    from running_average_quotient [OF this c] v st False m0 show ?thesis
      by (simp add: running_average_fields)
  qed
qed

lemma optimize_calls:
  "optimize env images target w = (Inr u, w') \<Longrightarrow>
   optimizer_calls w' = optimizer_calls w @ [Zero_grad, Backward, Step]"
  by (auto simp: optimize_def Let_def split: sum.splits)

lemma train_loop_calls:
  "train_loop env progress i bs st end_t w = (Inr r, w') \<Longrightarrow>
   optimizer_calls w' = optimizer_calls w @ concat (replicate (length bs) [Zero_grad, Backward, Step])"
proof (induction bs arbitrary: i st end_t w)
  case Nil
  then show ?case by simp
next
  case (Cons b bs)
  obtain images target where b: "b = (images, target)" by (cases b)
  from Cons.prems b obtain loss st1 where m: "measure_batch env w images target st = Inr (loss, st1)"
    by (auto split: sum.splits)
  from Cons.prems b m obtain u w1 where o: "optimize env images target w = (Inr u, w1)"
    by (auto split: sum.splits prod.splits)
  from Cons.prems b m o obtain st2 end2 w2 where
    tr: "time_and_report env progress 50 i st1 end_t w1 = (Inr (st2, end2), w2)"
    and rest: "train_loop env progress (Suc i) bs st2 end2 w2 = (Inr r, w')"
    by (auto split: sum.splits prod.splits)
  from optimize_calls [OF o] time_and_report_frame [OF tr] Cons.IH [OF rest]
  show ?case by simp
qed

lemma train_calls:
  assumes "fst (train train_loader env epoch w) = Inr v"
  shows "optimizer_calls (snd (train train_loader env epoch w))
         = optimizer_calls w @ concat (replicate (length train_loader) [Zero_grad, Backward, Step])"
proof -
  from assms obtain pre progress where
    "format ''Epoch:[{}]'' [epoch] = Inr pre"
    "ProgressMeter_init (int (length train_loader)) [Batch_time, Losses, Top1, Top5] pre = Inr progress"
    by (auto simp: train_def split: sum.splits)
  note p = this
  obtain end_t w1 where n: "now env (w\<lparr>training := True\<rparr>) = (end_t, w1)"
    by (cases "now env (w\<lparr>training := True\<rparr>)")
  from assms p n obtain r w2 where
    l: "train_loop env progress 0 train_loader new_meters end_t w1 = (Inr r, w2)"
    by (auto simp: train_def split: sum.splits prod.splits)
  from n have "optimizer_calls w1 = optimizer_calls w" by (auto simp: now_def)
  with train_loop_calls [OF l] p n l show ?thesis
    by (cases r) (simp add: train_def)
qed

lemma train_example:
  "params (snd (train [example_batch1, example_batch2] example_env 3 example_world)) = 8
   \<and> optimizer_calls (snd (train [example_batch1, example_batch2] example_env 3 example_world))
       = [Zero_grad, Backward, Step, Zero_grad, Backward, Step]"
  by code_simp

text \<open>
  C4, as the spec states it: a run in either mode returns the final running top-1
  average. On the two example batches the top-1 meter of \<open>train\<close> holds the average
  200/3 after the last batch, and \<open>train\<close> returns \<^verbatim>\<open>None\<close>.
\<close>

theorem train_returns_none_counterexample:
  "fst (train [example_batch1, example_batch2] example_env 3 example_world) = Inr PyNone
   \<and> (case fst (train_loop example_env
                  \<lparr>batch_fmtstr = ''[{:1d}/2]'', meters = [Batch_time, Losses, Top1, Top5],
                   prefix = ''Epoch:[3]''\<rparr>
                  0 [example_batch1, example_batch2] new_meters 0
                  (example_world\<lparr>training := True, clock := 1\<rparr>)) of
         Inl e \<Rightarrow> None
       | Inr (st, t) \<Rightarrow> Some (avg (st Top1))) = Some (200 / 3)
   \<and> PyNone \<noteq> PyNum (200 / 3)"
  by code_simp

text \<open>
  C4, amended: every run of \<open>validate\<close> that returns, returns the average held by the
  top-1 meter after the last batch, that is the running average of the per-batch top-1
  accuracies weighted by the batch sizes (0 when there is no batch); every run of
  \<open>train\<close> that returns, returns \<^verbatim>\<open>None\<close>.
\<close>

theorem epoch_return_value:
  "(fst (validate val_loader env w) = Inr v \<longrightarrow>
      v = PyNum (avg (running_average (AverageMeter_init ''Acc@1'' '':2.2f'')
                       (map (top1_sample env False (params w)) val_loader)))
      \<and> v = PyNum (if val_loader = [] then 0
                    else (\<Sum>(a, n)\<leftarrow>map (top1_sample env False (params w)) val_loader. a * n)
                         / (\<Sum>(a, n)\<leftarrow>map (top1_sample env False (params w)) val_loader. n)))
   \<and> (fst (train train_loader env epoch w) = Inr v' \<longrightarrow> v' = PyNone)"
  using validate_returns validate_returns_mean train_returns by blast

theorem epoch_return_value_witness:
  "fst (validate [example_batch1, example_batch2] example_env example_world) = Inr (PyNum (200 / 3))
   \<and> avg (running_average (AverageMeter_init ''Acc@1'' '':2.2f'')
            (map (top1_sample example_env False (params example_world))
               [example_batch1, example_batch2])) = 200 / 3
   \<and> fst (train [example_batch1, example_batch2] example_env 3 example_world) = Inr PyNone"
proof -
  have v: "fst (validate [example_batch1, example_batch2] example_env example_world)
           = Inr (PyNum (200 / 3))"
    by code_simp
  have t: "fst (train [example_batch1, example_batch2] example_env 3 example_world) = Inr PyNone"
    by code_simp
  from epoch_return_value
         [of "[example_batch1, example_batch2]" example_env example_world "PyNum (200 / 3)"
             "[example_batch1, example_batch2]" 3 PyNone]
       v t
  show ?thesis by simp
qed

end
